theory Spec2Isabelle
  imports Main "HOL-Library.Sublist"
begin

section \<open>Strings and constants of enforce\_conventional\_commits.py\<close>

text \<open>
  A Python \<open>str\<close> is modelled as a \<open>string\<close>: one \<open>char\<close> per code point, for the code
  points below 256. The backslash cannot be written inside a string literal, so it is
  named.
\<close>

abbreviation BS :: char where
  "BS \<equiv> CHR 0x5C"

abbreviation NL :: char where
  "NL \<equiv> CHR 0x0A"

definition RESULT_SUCCESS :: int where
  "RESULT_SUCCESS = 0"

definition RESULT_FAIL :: int where
  "RESULT_FAIL = 1"

definition CONVENTIONAL_TYPES :: "string list" where
  "CONVENTIONAL_TYPES = [''feat'', ''fix'']"

definition DEFAULT_TYPES :: "string list" where
  "DEFAULT_TYPES =
     [''ci'', ''docs'', ''feat'', ''fix'', ''ref'', ''refactor'', ''style'', ''test'',
      ''meta'', ''chore'']"

section \<open>Python's re module, as far as the hook uses it\<close>

text \<open>
  \<open>re.compile(pattern, flags)\<close> and \<open>regex.match(input)\<close> for \<open>str\<close> patterns. The
  hook builds its pattern from caller-supplied text, so the pattern is parsed here as
  the library's parser reads it, for this part of the syntax: literals, \<open>.\<close>, \<open>^\<close>,
  \<open>$\<close>, \<open>|\<close>, capturing groups, character sets with ranges and negation, the
  category escapes, escaped punctuation, and the greedy repeats \<open>?\<close> \<open>*\<close> \<open>+\<close>.
  \<open>ReError\<close> is the library's \<open>re.error\<close>. Any other construct (group extensions
  \<open>(?...)\<close>, counted repeats, lazy and possessive repeats, back-references, numeric
  and named escapes, word-boundary assertions) gives \<open>OutsideModel\<close>: the model says
  nothing about such a pattern.
\<close>

datatype error = ReError | OutsideModel | OtherError

datatype category = Digit | NotDigit | Space | NotSpace | Word | NotWord

datatype set_item = SLit char | SRange char char | SCat category

datatype regex =
    Lit char
  | AnyChar
  | Cat category
  | In bool "set_item list"
  | AtBeginning
  | AtEnd
  | Empty
  | Seq regex regex
  | Alt regex regex
  | Group regex
  | Opt regex
  | Star regex
  | Plus regex

subsection \<open>Character categories\<close>

definition code :: "char \<Rightarrow> nat" where
  "code c = of_char c"

fun in_ranges :: "nat \<Rightarrow> (nat \<times> nat) list \<Rightarrow> bool" where
  "in_ranges n [] = False"
| "in_ranges n ((lo, hi) # rs) = ((lo \<le> n \<and> n \<le> hi) \<or> in_ranges n rs)"

text \<open>
  The Unicode categories of a \<open>str\<close> pattern, on the code points below 256:
  \<open>\d\<close> is a decimal digit, \<open>\s\<close> is \<open>str.isspace\<close>, \<open>\w\<close> is \<open>str.isalnum\<close> or
  the underscore.
\<close>

definition is_digit :: "char \<Rightarrow> bool" where
  "is_digit c = in_ranges (code c) [(0x30, 0x39)]"

definition is_space :: "char \<Rightarrow> bool" where
  "is_space c = in_ranges (code c) [(0x09, 0x0D), (0x1C, 0x20), (0x85, 0x85), (0xA0, 0xA0)]"

definition is_word :: "char \<Rightarrow> bool" where
  "is_word c =
     in_ranges (code c)
       [(0x30, 0x39), (0x41, 0x5A), (0x5F, 0x5F), (0x61, 0x7A), (0xAA, 0xAA), (0xB2, 0xB3),
        (0xB5, 0xB5), (0xB9, 0xBA), (0xBC, 0xBE), (0xC0, 0xD6), (0xD8, 0xF6), (0xF8, 0xFF)]"

fun in_category :: "category \<Rightarrow> char \<Rightarrow> bool" where
  "in_category Digit c = is_digit c"
| "in_category NotDigit c = (\<not> is_digit c)"
| "in_category Space c = is_space c"
| "in_category NotSpace c = (\<not> is_space c)"
| "in_category Word c = is_word c"
| "in_category NotWord c = (\<not> is_word c)"

fun in_item :: "set_item \<Rightarrow> char \<Rightarrow> bool" where
  "in_item (SLit d) c = (c = d)"
| "in_item (SRange lo hi) c = (code lo \<le> code c \<and> code c \<le> code hi)"
| "in_item (SCat k) c = in_category k c"

subsection \<open>Reading the pattern: tokens\<close>

datatype token =
    TAtom regex
  | TBar
  | TOpen
  | TClose
  | TQuest
  | TStar
  | TPlus

definition ascii_letter :: "char \<Rightarrow> bool" where
  "ascii_letter c = in_ranges (code c) [(0x41, 0x5A), (0x61, 0x7A)]"

text \<open>The category escapes, shared by both escape readers.\<close>

definition category_escape :: "char \<Rightarrow> category option" where
  "category_escape c =
     (if c = CHR ''d'' then Some Digit else if c = CHR ''D'' then Some NotDigit
      else if c = CHR ''s'' then Some Space else if c = CHR ''S'' then Some NotSpace
      else if c = CHR ''w'' then Some Word else if c = CHR ''W'' then Some NotWord
      else None)"

text \<open>The escapes that stand for one control character (without \<open>\b\<close>).\<close>

definition control_escape :: "char \<Rightarrow> char option" where
  "control_escape c =
     (if c = CHR ''a'' then Some (CHR 0x07) else if c = CHR ''f'' then Some (CHR 0x0C)
      else if c = CHR ''n'' then Some (CHR 0x0A) else if c = CHR ''r'' then Some (CHR 0x0D)
      else if c = CHR ''t'' then Some (CHR 0x09) else if c = CHR ''v'' then Some (CHR 0x0B)
      else if c = BS then Some BS
      else None)"

text \<open>Escapes that take more characters: hexadecimal, Unicode, named, octal, group.\<close>

definition long_escape :: "char \<Rightarrow> bool" where
  "long_escape c = (c \<in> set ''xuUN'' \<or> is_digit c)"

text \<open>\<open>_escape\<close>: the character after a backslash, outside a set.\<close>

definition escape :: "char \<Rightarrow> error + regex" where
  "escape c =
     (if c \<in> set ''AbBZ'' then Inl OutsideModel
      else case category_escape c of Some k \<Rightarrow> Inr (Cat k)
      | None \<Rightarrow>
          (case control_escape c of Some d \<Rightarrow> Inr (Lit d)
           | None \<Rightarrow>
               if long_escape c then Inl OutsideModel
               else if ascii_letter c then Inl ReError
               else Inr (Lit c)))"

text \<open>\<open>_class_escape\<close>: the character after a backslash, inside a set.\<close>

definition class_escape :: "char \<Rightarrow> error + set_item" where
  "class_escape c =
     (if c = CHR ''b'' then Inr (SLit (CHR 0x08))
      else case control_escape c of Some d \<Rightarrow> Inr (SLit d)
      | None \<Rightarrow>
          (case category_escape c of Some k \<Rightarrow> Inr (SCat k)
           | None \<Rightarrow>
               if long_escape c then Inl OutsideModel
               else if ascii_letter c then Inl ReError
               else Inr (SLit c)))"

text \<open>A range \<open>lo-hi\<close> inside a set: both ends are literals, in order.\<close>

fun set_range :: "set_item \<Rightarrow> set_item \<Rightarrow> error + set_item" where
  "set_range (SLit lo) (SLit hi) = (if code hi < code lo then Inl ReError else Inr (SRange lo hi))"
| "set_range _ _ = Inl ReError"

text \<open>
  Where the reader is: outside a set, or inside one (with the negation flag and the
  members read so far, last first) before a member, after the backslash of a member,
  after a member \<open>code1\<close> that a \<open>-\<close> may follow, after that \<open>-\<close>, after the backslash
  of the upper end of a range.
\<close>

datatype mode =
    Normal
  | SetThis bool "set_item list"
  | SetThisEsc bool "set_item list"
  | SetDash bool "set_item list" set_item
  | SetThat bool "set_item list" set_item
  | SetThatEsc bool "set_item list" set_item

definition cons_tok :: "token \<Rightarrow> error + token list \<Rightarrow> error + token list" where
  "cons_tok t r = (case r of Inl e \<Rightarrow> Inl e | Inr ts \<Rightarrow> Inr (t # ts))"

definition set_token :: "bool \<Rightarrow> set_item list \<Rightarrow> token" where
  "set_token negate items = TAtom (In negate (rev items))"

fun tokens :: "mode \<Rightarrow> string \<Rightarrow> error + token list" where
  "tokens Normal [] = Inr []"
| "tokens Normal (c # cs) =
     (if c = BS then
        (case cs of [] \<Rightarrow> Inl ReError
         | e # cs' \<Rightarrow>
             (case escape e of Inl err \<Rightarrow> Inl err
              | Inr r \<Rightarrow> cons_tok (TAtom r) (tokens Normal cs')))
      else if c = CHR ''['' then
        (case cs of [] \<Rightarrow> Inl ReError
         | e # cs' \<Rightarrow>
             if e = CHR ''^'' then tokens (SetThis True []) cs'
             else tokens (SetThis False []) cs)
      else if c = CHR ''('' then
        (case cs of [] \<Rightarrow> cons_tok TOpen (tokens Normal cs)
         | e # cs' \<Rightarrow>
             if e = CHR ''?'' then Inl OutsideModel
             else cons_tok TOpen (tokens Normal cs))
      else if c = CHR ''{'' then Inl OutsideModel
      else if c = CHR '')'' then cons_tok TClose (tokens Normal cs)
      else if c = CHR ''|'' then cons_tok TBar (tokens Normal cs)
      else if c = CHR ''?'' then cons_tok TQuest (tokens Normal cs)
      else if c = CHR ''*'' then cons_tok TStar (tokens Normal cs)
      else if c = CHR ''+'' then cons_tok TPlus (tokens Normal cs)
      else if c = CHR ''.'' then cons_tok (TAtom AnyChar) (tokens Normal cs)
      else if c = CHR ''^'' then cons_tok (TAtom AtBeginning) (tokens Normal cs)
      else if c = CHR ''$'' then cons_tok (TAtom AtEnd) (tokens Normal cs)
      else cons_tok (TAtom (Lit c)) (tokens Normal cs))"
| "tokens (SetThis negate items) [] = Inl ReError"
| "tokens (SetThis negate items) (c # cs) =
     (if c = CHR '']'' \<and> items \<noteq> [] then
        cons_tok (set_token negate items) (tokens Normal cs)
      else if c = BS then tokens (SetThisEsc negate items) cs
      else tokens (SetDash negate items (SLit c)) cs)"
| "tokens (SetThisEsc negate items) [] = Inl ReError"
| "tokens (SetThisEsc negate items) (c # cs) =
     (case class_escape c of Inl err \<Rightarrow> Inl err
      | Inr code1 \<Rightarrow> tokens (SetDash negate items code1) cs)"
| "tokens (SetDash negate items code1) [] = Inl ReError"
| "tokens (SetDash negate items code1) (c # cs) =
     (if c = CHR ''-'' then tokens (SetThat negate items code1) cs
      else if c = CHR '']'' then
        cons_tok (set_token negate (code1 # items)) (tokens Normal cs)
      else if c = BS then tokens (SetThisEsc negate (code1 # items)) cs
      else tokens (SetDash negate (code1 # items) (SLit c)) cs)"
| "tokens (SetThat negate items code1) [] = Inl ReError"
| "tokens (SetThat negate items code1) (c # cs) =
     (if c = CHR '']'' then
        cons_tok (set_token negate (SLit (CHR ''-'') # code1 # items)) (tokens Normal cs)
      else if c = BS then tokens (SetThatEsc negate items code1) cs
      else
        (case set_range code1 (SLit c) of Inl err \<Rightarrow> Inl err
         | Inr r \<Rightarrow> tokens (SetThis negate (r # items)) cs))"
| "tokens (SetThatEsc negate items code1) [] = Inl ReError"
| "tokens (SetThatEsc negate items code1) (c # cs) =
     (case class_escape c of Inl err \<Rightarrow> Inl err
      | Inr code2 \<Rightarrow>
          (case set_range code1 code2 of Inl err \<Rightarrow> Inl err
           | Inr r \<Rightarrow> tokens (SetThis negate (r # items)) cs))"

subsection \<open>Reading the pattern: groups, branches and repeats\<close>

text \<open>
  What a repeat may follow: a unit item can be repeated, an anchor cannot ("nothing to
  repeat"), an item that is already a repeat cannot ("multiple repeat").
\<close>

datatype kind = Unit | At | Repeated

text \<open>
  An open subpattern: the branches closed so far and the items of the branch being
  read, both last first.
\<close>

type_synonym frame = "regex list \<times> (regex \<times> kind) list"

fun seq_of :: "regex list \<Rightarrow> regex" where
  "seq_of [] = Empty"
| "seq_of [r] = r"
| "seq_of (r # rs) = Seq r (seq_of rs)"

fun alt_of :: "regex list \<Rightarrow> regex" where
  "alt_of [] = Empty"
| "alt_of [r] = r"
| "alt_of (r # rs) = Alt r (alt_of rs)"

definition close_branch :: "(regex \<times> kind) list \<Rightarrow> regex" where
  "close_branch cur = seq_of (rev (map fst cur))"

definition close_frame :: "frame \<Rightarrow> regex" where
  "close_frame f = alt_of (rev (close_branch (snd f) # fst f))"

definition push_item :: "regex \<times> kind \<Rightarrow> frame \<Rightarrow> frame" where
  "push_item it f = (fst f, it # snd f)"

definition atom_kind :: "regex \<Rightarrow> kind" where
  "atom_kind r = (if r = AtBeginning \<or> r = AtEnd then At else Unit)"

text \<open>
  A repeat character after the last item of the current branch. A \<open>?\<close> or \<open>+\<close> after
  a repeat makes it lazy or possessive, which is not modelled.
\<close>

definition repeat :: "token \<Rightarrow> frame \<Rightarrow> error + frame" where
  "repeat t f =
     (case snd f of [] \<Rightarrow> Inl ReError
      | (r, k) # items \<Rightarrow>
          (case k of At \<Rightarrow> Inl ReError
           | Repeated \<Rightarrow> if t = TStar then Inl ReError else Inl OutsideModel
           | Unit \<Rightarrow>
               Inr (fst f,
                    ((if t = TQuest then Opt r else if t = TStar then Star r else Plus r),
                     Repeated) # items)))"

fun parse :: "token list \<Rightarrow> frame list \<Rightarrow> error + regex" where
  "parse [] [f] = Inr (close_frame f)"
| "parse [] _ = Inl ReError"
| "parse (t # ts) [] = Inl ReError"
| "parse (TAtom r # ts) (f # st) = parse ts (push_item (r, atom_kind r) f # st)"
| "parse (TOpen # ts) (f # st) = parse ts (([], []) # f # st)"
| "parse (TClose # ts) [f] = Inl ReError"
| "parse (TClose # ts) (f # g # st) = parse ts (push_item (Group (close_frame f), Unit) g # st)"
| "parse (TBar # ts) (f # st) = parse ts ((close_branch (snd f) # fst f, []) # st)"
| "parse (t # ts) (f # st) =
     (case repeat t f of Inl err \<Rightarrow> Inl err | Inr f' \<Rightarrow> parse ts (f' # st))"

definition parse_pattern :: "string \<Rightarrow> error + regex" where
  "parse_pattern pattern =
     (case tokens Normal pattern of Inl err \<Rightarrow> Inl err
      | Inr ts \<Rightarrow> parse ts [([], [])])"

text \<open>
  A compiled pattern: whether it was compiled with \<open>re.DOTALL\<close>, and the expression.
\<close>

type_synonym compiled = "bool \<times> regex"

definition re_compile :: "string \<Rightarrow> bool \<Rightarrow> error + compiled" where
  "re_compile pattern dotall =
     (case parse_pattern pattern of Inl err \<Rightarrow> Inl err | Inr r \<Rightarrow> Inr (dotall, r))"

subsection \<open>Matching\<close>

text \<open>
  A position in the input is the text still to be read, with a flag saying that nothing
  has been read yet. \<open>ends\<close> lists the positions where a match of the expression that
  starts at the given position can end. Without MULTILINE, \<open>^\<close> holds only at the start
  and \<open>$\<close> at the end or before a newline that ends the input. With DOTALL, \<open>.\<close> is
  any character, without it any character but the newline.
\<close>

type_synonym pos = "bool \<times> string"

definition one_char :: "(char \<Rightarrow> bool) \<Rightarrow> pos \<Rightarrow> pos list" where
  "one_char p st = (case snd st of [] \<Rightarrow> [] | x # xs \<Rightarrow> if p x then [(False, xs)] else [])"

text \<open>
  Repeating a step any number of times; a repetition that reads nothing ends where it
  started, so only repetitions that read something are followed, and the number of
  characters left bounds their number.
\<close>

fun iterate :: "(pos \<Rightarrow> pos list) \<Rightarrow> nat \<Rightarrow> pos \<Rightarrow> pos list" where
  "iterate step 0 st = [st]"
| "iterate step (Suc n) st =
     st # concat (map (iterate step n)
                    (filter (\<lambda>st'. length (snd st') < length (snd st)) (step st)))"

definition star :: "(pos \<Rightarrow> pos list) \<Rightarrow> pos \<Rightarrow> pos list" where
  "star step st = iterate step (length (snd st)) st"

fun ends :: "bool \<Rightarrow> regex \<Rightarrow> pos \<Rightarrow> pos list" where
  "ends dotall (Lit c) st = one_char (\<lambda>x. x = c) st"
| "ends dotall AnyChar st = one_char (\<lambda>x. dotall \<or> x \<noteq> NL) st"
| "ends dotall (Cat k) st = one_char (in_category k) st"
| "ends dotall (In negate items) st =
     one_char (\<lambda>x. list_ex (\<lambda>i. in_item i x) items \<noteq> negate) st"
| "ends dotall AtBeginning st = (if fst st then [st] else [])"
| "ends dotall AtEnd st = (if snd st = [] \<or> snd st = [NL] then [st] else [])"
| "ends dotall Empty st = [st]"
| "ends dotall (Seq r1 r2) st = concat (map (ends dotall r2) (ends dotall r1 st))"
| "ends dotall (Alt r1 r2) st = ends dotall r1 st @ ends dotall r2 st"
| "ends dotall (Group r) st = ends dotall r st"
| "ends dotall (Opt r) st = ends dotall r st @ [st]"
| "ends dotall (Star r) st = star (ends dotall r) st"
| "ends dotall (Plus r) st = concat (map (star (ends dotall r)) (ends dotall r st))"

text \<open>\<open>bool(regex.match(input))\<close>: some match starts at the beginning of the input.\<close>

definition re_match :: "compiled \<Rightarrow> string \<Rightarrow> bool" where
  "re_match regex input = (ends (fst regex) (snd regex) (True, input) \<noteq> [])"

section \<open>The hook\<close>

subsection \<open>The pattern pieces\<close>

text \<open>Python's \<open>sep.join(xs)\<close>.\<close>

fun join :: "string \<Rightarrow> string list \<Rightarrow> string" where
  "join sep [] = []"
| "join sep [x] = x"
| "join sep (x # y # ys) = x @ sep @ join sep (y # ys)"

definition r_types :: "string list \<Rightarrow> string" where
  "r_types types = join ''|'' types"

definition r_scope :: "bool \<Rightarrow> string" where
  "r_scope optional =
     (''('' @ [BS] @ ''(['' @ [BS] @ ''w '' @ [BS] @ ''/:-]+'' @ [BS] @ ''))'')
       @ (if optional then ''?'' else [])"

definition r_delim :: string where
  "r_delim = ''!?:''"

definition r_subject :: string where
  "r_subject = '' .+''"

subsection \<open>The effective type list\<close>

definition conventional_types :: "string list \<Rightarrow> string list" where
  "conventional_types types =
     (if set types \<inter> set CONVENTIONAL_TYPES = {} then CONVENTIONAL_TYPES @ types
      else types)"

subsection \<open>Merge and revert commits\<close>

text \<open>Python's \<open>sub in s\<close> on strings: \<open>sub\<close> starts at some position of \<open>s\<close>.\<close>

fun str_contains :: "string \<Rightarrow> string \<Rightarrow> bool" where
  "str_contains sub [] = (sub = [])"
| "str_contains sub (c # cs) = (prefix sub (c # cs) \<or> str_contains sub cs)"

definition is_special_commit :: "string \<Rightarrow> bool" where
  "is_special_commit input =
     (let merge_strings = [''Merged in '', ''Merge branch ''];
          revert_string = ''This reverts commit ''
      in if list_ex (\<lambda>merge_str. str_contains merge_str input) merge_strings then True
         else if str_contains revert_string input then True
         else False)"

subsection \<open>The classifier\<close>

text \<open>The pattern of \<open>is_conventional\<close>, from the type list in effect and the scope flag.\<close>

definition conventional_pattern :: "string list \<Rightarrow> bool \<Rightarrow> string" where
  "conventional_pattern types optional_scope =
     ''^('' @ r_types types @ '')'' @ r_scope optional_scope @ r_delim @ r_subject @ ''$''"

definition is_conventional :: "string \<Rightarrow> string list \<Rightarrow> bool \<Rightarrow> error + bool" where
  "is_conventional input types optional_scope =
     (if is_special_commit input then Inr False
      else
        (let types = conventional_types types;
             pattern = conventional_pattern types optional_scope
         in case re_compile pattern True of Inl err \<Rightarrow> Inl err
            | Inr regex \<Rightarrow> Inr (re_match regex input)))"

subsection \<open>String helpers of the path code\<close>

text \<open>Python's \<open>s.split(sep)\<close> for a separator of one character.\<close>

fun str_split :: "char \<Rightarrow> string \<Rightarrow> string list" where
  "str_split sep [] = [[]]"
| "str_split sep (c # cs) =
     (if c = sep then [] # str_split sep cs
      else (case str_split sep cs of [] \<Rightarrow> [[c]] | w # ws \<Rightarrow> (c # w) # ws))"

text \<open>
  Python's \<open>s.splitlines()\<close>: the line boundaries below code point 256; a carriage return
  followed by a line feed is one boundary; no empty last line. The first argument is the
  line being read, last character first.
\<close>

definition line_boundary :: "char \<Rightarrow> bool" where
  "line_boundary c = in_ranges (code c) [(0x0A, 0x0D), (0x1C, 0x1E), (0x85, 0x85)]"

fun splitlines_from :: "string \<Rightarrow> string \<Rightarrow> string list" where
  "splitlines_from cur [] = (if cur = [] then [] else [rev cur])"
| "splitlines_from cur (c # cs) =
     (if c = CHR 0x0D then
        (case cs of [] \<Rightarrow> [rev cur]
         | d # ds \<Rightarrow>
             if d = NL then rev cur # splitlines_from [] ds
             else rev cur # splitlines_from [] cs)
      else if line_boundary c then rev cur # splitlines_from [] cs
      else splitlines_from (c # cur) cs)"

definition splitlines :: "string \<Rightarrow> string list" where
  "splitlines s = splitlines_from [] s"

subsection \<open>pathlib's pure POSIX paths\<close>

text \<open>
  A path is its root (empty, \<open>/\<close> or \<open>//\<close>) and its components. \<open>Path(s)\<close> drops empty
  components and \<open>.\<close>; two paths are equal when root and components are.
\<close>

datatype pure_path = PurePath (root: string) (tail: "string list")

definition Path :: "string \<Rightarrow> pure_path" where
  "Path s =
     PurePath
       (if take 1 s \<noteq> ''/'' then []
        else if take 2 s = ''//'' \<and> take 3 s \<noteq> ''///'' then ''//''
        else ''/'')
       (filter (\<lambda>x. x \<noteq> [] \<and> x \<noteq> ''.'') (str_split (CHR ''/'') s))"

text \<open>\<open>p.parents\<close>: the ancestors of \<open>p\<close>, nearest first.\<close>

definition parents :: "pure_path \<Rightarrow> pure_path list" where
  "parents p = map (\<lambda>n. PurePath (root p) (take n (tail p))) (rev [0..<length (tail p)])"

subsection \<open>The touched paths\<close>

text \<open>
  \<open>re.compile(r"(?<=label)\S+").findall(input)\<close> for a literal \<open>label\<close>: the search goes
  left to right; a match starts where the text before the position ends with the label
  and a non-space character follows, it takes the longest run of non-space characters,
  and the search goes on after the match. \<open>seen\<close> is the text before the position.
\<close>

function findall_after :: "string \<Rightarrow> string \<Rightarrow> string \<Rightarrow> string list" where
  "findall_after label seen [] = []"
| "findall_after label seen (c # cs) =
     (if suffix label seen \<and> \<not> is_space c then
        (let match = takeWhile (\<lambda>x. \<not> is_space x) (c # cs)
         in match # findall_after label (seen @ match) (dropWhile (\<lambda>x. \<not> is_space x) (c # cs)))
      else findall_after label (seen @ [c]) cs)"
  by pat_completeness auto
termination
  by (relation "measure (\<lambda>(label, seen, s). length s)")
    (auto simp: less_Suc_eq_le length_dropWhile_le)

definition status_tokens :: "(string \<times> string) list" where
  "status_tokens =
     [(''modified'', ''modified:   ''), (''added'', ''new file:   ''),
      (''removed'', ''deleted:    ''), (''renamed'', ''renamed:    '')]"

text \<open>The loop over the four patterns, in the order of the dictionary.\<close>

fun scan_status :: "(string \<times> string) list \<Rightarrow> string \<Rightarrow> pure_path list \<Rightarrow> pure_path list" where
  "scan_status [] input modified_files = modified_files"
| "scan_status ((status, label) # rest) input modified_files =
     (let matches = findall_after label [] input
      in scan_status rest input
           (if matches \<noteq> [] then modified_files @ map Path matches else modified_files))"

text \<open>
  What \<open>git diff --cached --name-only --diff-filter=ACDMRT\<close> did: it ended with exit
  status 0 and this standard output, or with another exit status (\<open>check=True\<close> raises
  \<open>CalledProcessError\<close>, carried with its text), or it could not be run.
\<close>

datatype git_result = Completed string | CalledProcessError string | NotRun

text \<open>What the program does besides returning: the query, and what it prints.\<close>

datatype event =
    GitDiffCached
  | Print string
  | BadEncodingNotice
  | BadCommitNotice string string

definition get_modified_filepaths ::
    "string \<Rightarrow> git_result \<Rightarrow> (error + pure_path list) \<times> event list" where
  "get_modified_filepaths input git =
     (let modified_files = scan_status status_tokens input []
      in if modified_files = [] then
           (case git of
              Completed stdout \<Rightarrow>
                (Inr (modified_files @ map Path (splitlines stdout)), [GitDiffCached])
            | CalledProcessError e \<Rightarrow>
                (Inr modified_files,
                 [GitDiffCached, Print (''Failed to get modified files. Error: '' @ e)])
            | NotRun \<Rightarrow> (Inl OtherError, [GitDiffCached]))
         else (Inr modified_files, []))"

subsection \<open>The entry point\<close>

text \<open>
  The parsed command line, the result of reading the message file and the result of
  the query are given to \<open>main\<close>; it returns the exit code, or the exception that
  leaves it, and the events in order. The two long notices are events that carry their
  variable parts: the message and the comma-joined type list.
\<close>

record args =
  arg_types :: "string list"
  arg_limit_to :: "string list option"
  arg_optional_scope :: bool
  arg_input :: string

datatype read_result = Text string | UnicodeDecodeError | ReadFailure

fun matches_limited :: "pure_path \<Rightarrow> string list \<Rightarrow> bool" where
  "matches_limited modified_filepath [] = False"
| "matches_limited modified_filepath (single_limited_path # rest) =
     (let limited_path = Path single_limited_path
      in if limited_path \<in> set (parents modified_filepath)
            \<or> modified_filepath = limited_path
         then True
         else matches_limited modified_filepath rest)"

fun directories_for_commit_check :: "pure_path list \<Rightarrow> string list \<Rightarrow> pure_path list" where
  "directories_for_commit_check [] limited_paths = []"
| "directories_for_commit_check (modified_filepath # rest) limited_paths =
     (if matches_limited modified_filepath limited_paths
      then modified_filepath # directories_for_commit_check rest limited_paths
      else directories_for_commit_check rest limited_paths)"

text \<open>The last step of \<open>main\<close>: the classifier and the exit code.\<close>

definition validate :: "args \<Rightarrow> string \<Rightarrow> event list \<Rightarrow> (error + int) \<times> event list" where
  "validate a message log =
     (case is_conventional message (arg_types a) (arg_optional_scope a) of
        Inl err \<Rightarrow> (Inl err, log)
      | Inr conventional \<Rightarrow>
          if conventional then (Inr RESULT_SUCCESS, log)
          else (Inr RESULT_FAIL,
                log @ [BadCommitNotice message (join '', '' (conventional_types (arg_types a)))]))"

definition main :: "args option \<Rightarrow> read_result \<Rightarrow> git_result \<Rightarrow> (error + int) \<times> event list" where
  "main parsed contents git =
     (case parsed of
        None \<Rightarrow> (Inr RESULT_FAIL, [])
      | Some a \<Rightarrow>
          (case contents of
             ReadFailure \<Rightarrow> (Inl OtherError, [])
           | UnicodeDecodeError \<Rightarrow> (Inr RESULT_FAIL, [BadEncodingNotice])
           | Text message \<Rightarrow>
               (case arg_limit_to a of
                  None \<Rightarrow> validate a message []
                | Some [] \<Rightarrow> validate a message []
                | Some (first # others) \<Rightarrow>
                    (case get_modified_filepaths message git of
                       (Inl err, log) \<Rightarrow> (Inl err, log)
                     | (Inr modified_filepaths, log) \<Rightarrow>
                         (let limited_paths = str_split (CHR '','') first
                          in if directories_for_commit_check modified_filepaths limited_paths = []
                             then (Inr RESULT_SUCCESS, log)
                             else validate a message log)))))"

subsection \<open>Notions of the specification\<close>

text \<open>
  The matches of the four patterns, in the order of the loop.
\<close>

definition label_matches :: "string \<Rightarrow> string list" where
  "label_matches input =
     concat (map (\<lambda>(status, label). findall_after label [] input) status_tokens)"

text \<open>
  The path tokens after a label, position by position: at every position of the text
  that the label precedes and that holds a non-space character, the longest run of
  non-space characters from there.
\<close>

fun label_tokens :: "string \<Rightarrow> string \<Rightarrow> string \<Rightarrow> string list" where
  "label_tokens label seen [] = []"
| "label_tokens label seen (c # cs) =
     (if suffix label seen \<and> \<not> is_space c
      then [takeWhile (\<lambda>x. \<not> is_space x) (c # cs)] else [])
     @ label_tokens label (seen @ [c]) cs"

text \<open>
  A touched path falls under a filter path: it is that path, or the filter path is a
  proper ancestor of it (same root, and its components are a proper prefix).
\<close>

definition under_prefix :: "pure_path \<Rightarrow> pure_path \<Rightarrow> bool" where
  "under_prefix q p = (p = q \<or> (root q = root p \<and> strict_prefix (tail q) (tail p)))"

subsection \<open>The grammar of a conforming message\<close>












text \<open>The parsed command line of the repository's tests, with a given \<open>--limit-to\<close>.\<close>

definition test_args :: "string list \<Rightarrow> args" where
  "test_args limit =
     \<lparr>arg_types = [''feat'', ''fix''], arg_limit_to = Some limit, arg_optional_scope = True,
      arg_input = ''commit_msg.txt''\<rparr>"

section \<open>Properties\<close>

lemma str_contains_iff: "str_contains sub s \<longleftrightarrow> (\<exists>u v. s = u @ sub @ v)"
proof (induction s)
  case Nil
  then show ?case by auto
next
  case (Cons c cs)
  show ?case
  proof
    assume "str_contains sub (c # cs)"
    then consider "prefix sub (c # cs)" | "str_contains sub cs" by auto
    then show "\<exists>u v. c # cs = u @ sub @ v"
    proof cases
      case 1
      then obtain v where "c # cs = sub @ v" by (auto simp: prefix_def)
      then have "c # cs = [] @ sub @ v" by simp
      then show ?thesis by blast
    next
      case 2
      with Cons.IH obtain u v where "cs = u @ sub @ v" by blast
      then have "c # cs = (c # u) @ sub @ v" by simp
      then show ?thesis by blast
    qed
  next
    assume "\<exists>u v. c # cs = u @ sub @ v"
    then obtain u v where uv: "c # cs = u @ sub @ v" by blast
    show "str_contains sub (c # cs)"
    proof (cases u)
      case Nil
      with uv have "prefix sub (c # cs)" by (simp add: prefix_def)
      then show ?thesis by simp
    next
      case (Cons d u')
      with uv have "cs = u' @ sub @ v" by simp
      with Cons.IH have "str_contains sub cs" by blast
      then show ?thesis by simp
    qed
  qed
qed

lemma suffix_last:
  assumes "suffix label xs" "label \<noteq> []"
  shows "xs \<noteq> [] \<and> last xs = last label"
  using assms by (auto simp: suffix_def)

lemma label_tokens_skip:
  assumes "label \<noteq> []" "is_space (last label)" "\<not> is_space c"
    and "list_all (\<lambda>x. \<not> is_space x) t"
  shows "label_tokens label (seen @ [c]) (t @ r) = label_tokens label (seen @ c # t) r"
  using assms(3,4)
proof (induction t arbitrary: seen c)
  case Nil
  then show ?case by simp
next
  case (Cons x t)
  have "\<not> suffix label (seen @ [c])"
  proof
    assume "suffix label (seen @ [c])"
    from suffix_last [OF this assms(1)] have "c = last label" by simp
    with assms(2) Cons.prems(1) show False by simp
  qed
  moreover from Cons.prems have "\<not> is_space x" "list_all (\<lambda>x. \<not> is_space x) t"
    by simp_all
  from Cons.IH [OF this, of "seen @ [c]"]
  have "label_tokens label (seen @ [c] @ [x]) (t @ r) = label_tokens label (seen @ c # x # t) r"
    by simp
  ultimately show ?case by simp
qed

lemma findall_after_label_tokens:
  "label \<noteq> [] \<Longrightarrow> is_space (last label) \<Longrightarrow>
     findall_after label seen s = label_tokens label seen s"
proof (induction label seen s rule: findall_after.induct)
  case (1 label seen)
  show ?case by simp
next
  case (2 label seen c cs)
  note lab = "2.prems"
  show ?case
  proof (cases "suffix label seen \<and> \<not> is_space c")
    case True
    let ?t = "takeWhile (\<lambda>x. \<not> is_space x) cs"
    let ?r = "dropWhile (\<lambda>x. \<not> is_space x) cs"
    from True have nc: "\<not> is_space c" by simp
    then have m: "takeWhile (\<lambda>x. \<not> is_space x) (c # cs) = c # ?t"
      and d: "dropWhile (\<lambda>x. \<not> is_space x) (c # cs) = ?r"
      by simp_all
    have all: "list_all (\<lambda>x. \<not> is_space x) ?t"
      by (auto simp: list_all_iff dest: set_takeWhileD)
    from "2.IH"(1) [OF True m [symmetric]] lab nc
    have ih: "findall_after label (seen @ c # ?t) ?r = label_tokens label (seen @ c # ?t) ?r"
      by (simp add: m d)
    have "label_tokens label (seen @ [c]) cs = label_tokens label (seen @ [c]) (?t @ ?r)"
      by simp
    also have "\<dots> = label_tokens label (seen @ c # ?t) ?r"
      by (rule label_tokens_skip [OF lab nc all])
    finally have skip:
      "label_tokens label (seen @ [c]) cs = label_tokens label (seen @ c # ?t) ?r" .
    from True have "findall_after label seen (c # cs) =
        (c # ?t) # findall_after label (seen @ c # ?t) ?r"
      by (simp add: Let_def)
    moreover from True have "label_tokens label seen (c # cs) =
        (c # ?t) # label_tokens label (seen @ [c]) cs"
      by simp
    ultimately show ?thesis using ih skip by simp
  next
    case False
    from "2.IH"(2) [OF False] lab
    have "findall_after label (seen @ [c]) cs = label_tokens label (seen @ [c]) cs" by simp
    with False show ?thesis by auto
  qed
qed

lemma scan_status_acc:
  "scan_status sts input acc =
     acc @ map Path (concat (map (\<lambda>(status, label). findall_after label [] input) sts))"
  by (induction sts arbitrary: acc) (auto simp: Let_def)

lemma scan_status_label_matches:
  "scan_status status_tokens input [] = map Path (label_matches input)"
  by (simp add: scan_status_acc label_matches_def)

lemma space_is_space: "is_space (CHR '' '')"
  by (simp add: is_space_def code_def)

lemma label_matches_tokens:
  "label_matches input =
     label_tokens ''modified:   '' [] input @ label_tokens ''new file:   '' [] input
       @ label_tokens ''deleted:    '' [] input @ label_tokens ''renamed:    '' [] input"
  by (simp add: label_matches_def status_tokens_def findall_after_label_tokens space_is_space
      del: findall_after.simps label_tokens.simps)

lemma get_modified_filepaths_found:
  "label_matches input \<noteq> [] \<Longrightarrow>
     get_modified_filepaths input git = (Inr (map Path (label_matches input)), [])"
  by (simp add: get_modified_filepaths_def scan_status_label_matches Let_def)

lemma get_modified_filepaths_fallback:
  "label_matches input = [] \<Longrightarrow>
     get_modified_filepaths input git =
       (case git of
          Completed out \<Rightarrow> (Inr (map Path (splitlines out)), [GitDiffCached])
        | CalledProcessError e \<Rightarrow>
            (Inr [], [GitDiffCached, Print (''Failed to get modified files. Error: '' @ e)])
        | NotRun \<Rightarrow> (Inl OtherError, [GitDiffCached]))"
  by (simp add: get_modified_filepaths_def scan_status_label_matches Let_def
      split: git_result.splits)

lemma splitlines_from_line:
  "list_all (\<lambda>c. \<not> line_boundary c) l \<Longrightarrow>
     splitlines_from cur (l @ NL # rest) = (rev cur @ l) # splitlines_from [] rest"
proof (induction l arbitrary: cur)
  case Nil
  show ?case by (simp add: line_boundary_def code_def)
next
  case (Cons c l)
  then have nb: "\<not> line_boundary c" and l: "list_all (\<lambda>c. \<not> line_boundary c) l"
    by simp_all
  from nb have "c \<noteq> CHR 0x0D"
    by (auto simp: line_boundary_def code_def)
  with nb Cons.IH [OF l, of "c # cur"] show ?case by simp
qed

lemma splitlines_lines:
  "list_all (list_all (\<lambda>c. \<not> line_boundary c)) ls \<Longrightarrow>
     splitlines (concat (map (\<lambda>l. l @ [NL]) ls)) = ls"
  unfolding splitlines_def
  by (induction ls) (simp_all add: splitlines_from_line)

lemma strict_prefix_take:
  "strict_prefix xs ys \<longleftrightarrow> (\<exists>n < length ys. xs = take n ys)"
proof
  assume "strict_prefix xs ys"
  then obtain zs where "ys = xs @ zs" "zs \<noteq> []"
    by (auto simp: strict_prefix_def prefix_def)
  then have "length xs < length ys" "xs = take (length xs) ys" by simp_all
  then show "\<exists>n < length ys. xs = take n ys" by blast
next
  assume "\<exists>n < length ys. xs = take n ys"
  then obtain n where "n < length ys" "xs = take n ys" by blast
  then show "strict_prefix xs ys"
    by (metis append_take_drop_id length_take min.absorb4 nat_neq_iff prefixI strict_prefix_def)
qed

lemma member_parents:
  "q \<in> set (parents p) \<longleftrightarrow> root q = root p \<and> strict_prefix (tail q) (tail p)"
proof -
  have "q \<in> set (parents p) \<longleftrightarrow>
      (\<exists>n < length (tail p). q = PurePath (root p) (take n (tail p)))"
    by (auto simp: parents_def)
  also have "\<dots> \<longleftrightarrow> root q = root p \<and> (\<exists>n < length (tail p). tail q = take n (tail p))"
    by (cases q) auto
  finally show ?thesis by (simp add: strict_prefix_take)
qed

lemma matches_limited_iff:
  "matches_limited p qs \<longleftrightarrow> list_ex (\<lambda>q. under_prefix (Path q) p) qs"
  by (induction qs) (auto simp: Let_def member_parents under_prefix_def)

lemma directories_for_commit_check_filter:
  "directories_for_commit_check ps qs = filter (\<lambda>p. matches_limited p qs) ps"
  by (induction ps) auto

lemma directories_for_commit_check_empty:
  "directories_for_commit_check ps qs = [] \<longleftrightarrow>
     \<not> list_ex (\<lambda>p. list_ex (\<lambda>q. under_prefix (Path q) p) qs) ps"
  by (simp add: directories_for_commit_check_filter matches_limited_iff filter_empty_conv
      list_ex_iff)





































lemma conventional_types_disjoint:
  "set types \<inter> set CONVENTIONAL_TYPES = {} \<Longrightarrow>
     conventional_types types = ''feat'' # ''fix'' # types"
  by (simp add: conventional_types_def CONVENTIONAL_TYPES_def)

text \<open>
  C1. The claim: for every list of types, \<open>conventional_types\<close> returns a list that holds
  both "feat" and "fix". The source adds the two mandatory types only when the caller's
  list holds neither of them: a list that holds exactly one of them is returned as it is,
  so on \<open>["feat"]\<close> the result is \<open>["feat"]\<close> and "fix" is missing, and on \<open>["fix"]\<close>
  the result is \<open>["fix"]\<close> and "feat" is missing. The empty list does yield exactly the
  two mandatory types. The classifier inherits this: with the type list \<open>["feat"]\<close> the
  message "fix: a" is not conventional.
\<close>

theorem conventional_types_partial_overlap:
  "conventional_types [''feat''] = [''feat'']
   \<and> ''fix'' \<notin> set (conventional_types [''feat''])
   \<and> conventional_types [''fix''] = [''fix'']
   \<and> ''feat'' \<notin> set (conventional_types [''fix''])
   \<and> conventional_types [] = [''feat'', ''fix'']
   \<and> is_conventional ''fix: a'' [''feat''] True = Inr False"
proof -
  have "is_conventional ''fix: a'' [''feat''] True = Inr False"
    by code_simp
  then show ?thesis
    by (simp add: conventional_types_def CONVENTIONAL_TYPES_def)
qed

text \<open>
  C3. \<open>is_special_commit s\<close> is true exactly when \<open>s\<close> contains "Merged in ",
  "Merge branch " or "This reverts commit " as a substring, at any position of the text.
\<close>

theorem is_special_commit_iff:
  "is_special_commit s \<longleftrightarrow>
     (\<exists>u v. s = u @ ''Merged in '' @ v)
     \<or> (\<exists>u v. s = u @ ''Merge branch '' @ v)
     \<or> (\<exists>u v. s = u @ ''This reverts commit '' @ v)"
  unfolding is_special_commit_def Let_def
  by (simp add: str_contains_iff del: str_contains.simps)




text \<open>
  C4. A message that \<open>is_special_commit\<close> flags is never conventional, whatever the type
  list and the scope flag: the answer is given before the pattern is built, so also for
  a type list that makes no valid pattern.
\<close>

theorem special_commit_not_conventional:
  "is_special_commit s \<Longrightarrow> is_conventional s T opt = Inr False"
  by (simp add: is_conventional_def)

theorem special_commit_not_conventional_witness:
  "is_special_commit ''Merged in feature1''
   \<and> is_conventional ''Merged in feature1'' [''(''] False = Inr False"
proof -
  have h: "is_special_commit ''Merged in feature1''"
    by (simp add: is_special_commit_def)
  from special_commit_not_conventional [OF h, of "[''('']" False] h show ?thesis
    by simp
qed

text \<open>
  C5. With the type list \<open>["feat", "fix"]\<close> and an optional scope, a conforming header
  followed by a blank line and a "BREAKING CHANGES: ..." body is conventional (the
  subject \<open>.+\<close> takes the rest of the message, newlines included), and the same body
  after the header "invalid: not valid" is not. Both are also checked on the messages of
  the repository's tests.
\<close>

theorem breaking_changes_body:
  "is_conventional (''feat: new feature'' @ [NL, NL] @ ''BREAKING CHANGES: ...'')
     [''feat'', ''fix''] True = Inr True
   \<and> is_conventional (''invalid: not valid'' @ [NL, NL] @ ''BREAKING CHANGES: ...'')
     [''feat'', ''fix''] True = Inr False
   \<and> is_conventional
       (''feat: new feature'' @ [NL, NL]
          @ ''BREAKING CHANGES: changes that break backward compatibility'')
       [''feat'', ''fix''] True = Inr True
   \<and> is_conventional
       (''invalid: not a valid message'' @ [NL, NL]
          @ ''BREAKING CHANGES: changes that break backward compatibility'')
       [''feat'', ''fix''] True = Inr False"
  by code_simp

text \<open>
  C10. The type strings go into the pattern unescaped: with the type list \<open>["fe.t"]\<close>
  the message "fezt: x" is conventional, although its header type "fezt" is neither in
  the list nor one of the two mandatory types; the \<open>.\<close> of the entry is read as the
  any-character operator.
\<close>

theorem unescaped_type_matches_other_header:
  "is_conventional ''fezt: x'' [''fe.t''] True = Inr True
   \<and> ''fezt'' \<notin> set [''fe.t'']
   \<and> ''fezt'' \<notin> set CONVENTIONAL_TYPES
   \<and> conventional_pattern (conventional_types [''fe.t'']) True =
       ''^(feat|fix|fe.t)('' @ [BS] @ ''(['' @ [BS] @ ''w '' @ [BS] @ ''/:-]+'' @ [BS]
         @ ''))?!?: .+$''"
proof -
  have "is_conventional ''fezt: x'' [''fe.t''] True = Inr True"
    by code_simp
  moreover have "conventional_pattern (conventional_types [''fe.t'']) True =
       ''^(feat|fix|fe.t)('' @ [BS] @ ''(['' @ [BS] @ ''w '' @ [BS] @ ''/:-]+'' @ [BS]
         @ ''))?!?: .+$''"
    by (simp add: conventional_pattern_def conventional_types_def CONVENTIONAL_TYPES_def
        r_types_def r_scope_def r_delim_def r_subject_def)
  ultimately show ?thesis
    by (simp add: CONVENTIONAL_TYPES_def)
qed

text \<open>
  C6. The touched paths from the message. The matches of the four patterns are the path
  tokens after the labels "modified:   ", "new file:   ", "deleted:    " and
  "renamed:    ": at every position that the label precedes and that holds a non-space
  character, the longest run of non-space characters. They come in the order modified,
  added, removed, renamed, and in the order of the text inside each group. When there
  is at least one, \<open>get_modified_filepaths\<close> returns them as paths and asks nothing else.
  The message of the repository's test gives the paths "a" and "b".
\<close>

theorem touched_paths_from_labels:
  "label_matches input =
     label_tokens ''modified:   '' [] input @ label_tokens ''new file:   '' [] input
       @ label_tokens ''deleted:    '' [] input @ label_tokens ''renamed:    '' [] input
   \<and> (label_matches input \<noteq> [] \<longrightarrow>
        get_modified_filepaths input git = (Inr (map Path (label_matches input)), []))
   \<and> get_modified_filepaths (''modified:   a'' @ [NL] @ ''new file:   b'' @ [NL]) git =
       (Inr [Path ''a'', Path ''b''], [])"
proof -
  have "label_matches (''modified:   a'' @ [NL] @ ''new file:   b'' @ [NL]) = [''a'', ''b'']"
    by code_simp
  then have "get_modified_filepaths (''modified:   a'' @ [NL] @ ''new file:   b'' @ [NL]) git =
       (Inr [Path ''a'', Path ''b''], [])"
    by (simp add: get_modified_filepaths_found del: append.simps)
  then show ?thesis
    using label_matches_tokens [of input] get_modified_filepaths_found [of input git]
    by blast
qed

theorem touched_paths_from_labels_witness:
  "label_matches (''new file:   b'' @ [NL] @ ''modified:   a  modified:   xmodified:   y'') =
     [''a'', ''xmodified:'', ''y'', ''b'']
   \<and> get_modified_filepaths
       (''new file:   b'' @ [NL] @ ''modified:   a  modified:   xmodified:   y'') NotRun =
     (Inr [Path ''a'', Path ''xmodified:'', Path ''y'', Path ''b''], [])"
proof -
  have h: "label_matches (''new file:   b'' @ [NL] @ ''modified:   a  modified:   xmodified:   y'') =
     [''a'', ''xmodified:'', ''y'', ''b'']"
    by code_simp
  from touched_paths_from_labels
    [of "''new file:   b'' @ [NL] @ ''modified:   a  modified:   xmodified:   y''" NotRun] h
  show ?thesis by simp
qed

text \<open>
  C7. The staged-change query. It is run exactly once when the four patterns found
  nothing, and not at all otherwise. Its standard output is read line by line, one path
  per line in the order of the output (for lines that end in a newline, these are the
  lines). When the query ends with a non-zero exit status, the failure is printed and the
  function returns the empty list.
\<close>

theorem fallback_to_staged_changes:
  "count_list (snd (get_modified_filepaths input git)) GitDiffCached =
     (if label_matches input = [] then 1 else 0)
   \<and> (label_matches input = [] \<longrightarrow>
        get_modified_filepaths input (Completed out) =
          (Inr (map Path (splitlines out)), [GitDiffCached]))
   \<and> (label_matches input = [] \<and> list_all (list_all (\<lambda>c. \<not> line_boundary c)) ls \<longrightarrow>
        get_modified_filepaths input (Completed (concat (map (\<lambda>l. l @ [NL]) ls))) =
          (Inr (map Path ls), [GitDiffCached]))
   \<and> (label_matches input = [] \<longrightarrow>
        get_modified_filepaths input (CalledProcessError e) =
          (Inr [], [GitDiffCached, Print (''Failed to get modified files. Error: '' @ e)]))"
proof -
  have "count_list (snd (get_modified_filepaths input git)) GitDiffCached =
     (if label_matches input = [] then 1 else 0)"
  proof (cases "label_matches input = []")
    case True
    then show ?thesis
      by (cases git) (simp_all add: get_modified_filepaths_fallback)
  next
    case False
    then show ?thesis
      by (simp add: get_modified_filepaths_found)
  qed
  then show ?thesis
    by (simp add: get_modified_filepaths_fallback splitlines_lines)
qed

theorem fallback_to_staged_changes_witness:
  "label_matches (''unmatched_commit_status:   commit_path'' @ [NL]) = []
   \<and> get_modified_filepaths (''unmatched_commit_status:   commit_path'' @ [NL])
       (Completed (''git_added_path'' @ [NL] @ ''git_modified_path'' @ [NL])) =
     (Inr [Path ''git_added_path'', Path ''git_modified_path''], [GitDiffCached])
   \<and> get_modified_filepaths (''unmatched_commit_status:   commit_path'' @ [NL])
       (CalledProcessError ''returned non-zero exit status 128.'') =
     (Inr [],
      [GitDiffCached,
       Print ''Failed to get modified files. Error: returned non-zero exit status 128.''])
   \<and> count_list
       (snd (get_modified_filepaths (''modified:   a'' @ [NL]) (Completed ''b''))) GitDiffCached
     = 0"
proof -
  let ?input = "''unmatched_commit_status:   commit_path'' @ [NL]"
  have h: "label_matches ?input = []"
    by code_simp
  have l: "list_all (list_all (\<lambda>c. \<not> line_boundary c)) [''git_added_path'', ''git_modified_path'']"
    by code_simp
  have n: "label_matches (''modified:   a'' @ [NL]) \<noteq> []"
    by code_simp
  from fallback_to_staged_changes
    [of ?input "Completed []" "[]" "[''git_added_path'', ''git_modified_path'']"
      "''returned non-zero exit status 128.''"] h l
  have "get_modified_filepaths ?input
       (Completed (''git_added_path'' @ [NL] @ ''git_modified_path'' @ [NL])) =
     (Inr [Path ''git_added_path'', Path ''git_modified_path''], [GitDiffCached])"
    and "get_modified_filepaths ?input (CalledProcessError ''returned non-zero exit status 128.'') =
     (Inr [],
      [GitDiffCached,
       Print ''Failed to get modified files. Error: returned non-zero exit status 128.''])"
    by simp_all
  moreover from fallback_to_staged_changes [of "''modified:   a'' @ [NL]" "Completed ''b''"] n
  have "count_list
       (snd (get_modified_filepaths (''modified:   a'' @ [NL]) (Completed ''b''))) GitDiffCached
     = 0"
    by simp
  ultimately show ?thesis using h by blast
qed

text \<open>
  C8. The path filter. With at least one \<open>--limit-to\<close> token, and the touched paths
  found, \<open>main\<close> exits 0 whatever the message is when no touched path falls under a
  filter path (is equal to it, or has it as a proper ancestor), the filter paths being
  the comma-separated parts of the first token; otherwise the exit code is the
  classifier's: 0 for a conventional message, 1 with the notice for another one. In the
  first case the classifier is not run: the exit code is 0 also with a type list whose
  pattern does not compile.
\<close>

theorem limit_to_filter:
  assumes "arg_limit_to a = Some (first # others)"
    and "get_modified_filepaths message git = (Inr touched, log)"
  shows "main (Some a) (Text message) git =
     (if list_ex (\<lambda>p. list_ex (\<lambda>q. under_prefix (Path q) p) (str_split (CHR '','') first))
           touched
      then
        (case is_conventional message (arg_types a) (arg_optional_scope a) of
           Inl err \<Rightarrow> (Inl err, log)
         | Inr conventional \<Rightarrow>
             if conventional then (Inr 0, log)
             else (Inr 1,
                   log @ [BadCommitNotice message
                            (join '', '' (conventional_types (arg_types a)))]))
      else (Inr 0, log))"
  using assms
  by (simp add: main_def Let_def directories_for_commit_check_empty validate_def
      RESULT_SUCCESS_def RESULT_FAIL_def split: sum.splits)

theorem limit_to_filter_witness:
  "main (Some (test_args [''/path/to/dir''])) (Text ''bad commit message'')
       (Completed (''/different/path/file.txt'' @ [NL])) =
     (Inr 0, [GitDiffCached])
   \<and> main (Some (test_args [''/path/to/dir''])) (Text ''bad commit message'')
       (Completed (''/path/to/dir/file.txt'' @ [NL])) =
     (Inr 1, [GitDiffCached, BadCommitNotice ''bad commit message'' ''feat, fix''])
   \<and> main (Some ((test_args [''/path/to/dir''])\<lparr>arg_types := [''('']\<rparr>))
       (Text ''bad commit message'') (Completed (''/different/path/file.txt'' @ [NL])) =
     (Inr 0, [GitDiffCached])
   \<and> is_conventional ''bad commit message'' [''(''] True = Inl ReError"
proof -
  have a': "arg_limit_to ((test_args [''/path/to/dir''])\<lparr>arg_types := [''('']\<rparr>) =
      Some (''/path/to/dir'' # [])"
    by (simp add: test_args_def)
  have e: "is_conventional ''bad commit message'' [''(''] True = Inl ReError"
    by code_simp
  have a: "arg_limit_to (test_args [''/path/to/dir'']) = Some (''/path/to/dir'' # [])"
    by (simp add: test_args_def)
  have g1: "get_modified_filepaths ''bad commit message''
       (Completed (''/different/path/file.txt'' @ [NL])) =
     (Inr [Path ''/different/path/file.txt''], [GitDiffCached])"
    by code_simp
  have g2: "get_modified_filepaths ''bad commit message''
       (Completed (''/path/to/dir/file.txt'' @ [NL])) =
     (Inr [Path ''/path/to/dir/file.txt''], [GitDiffCached])"
    by code_simp
  have u1: "\<not> list_ex (\<lambda>p. list_ex (\<lambda>q. under_prefix (Path q) p) (str_split (CHR '','') ''/path/to/dir''))
       [Path ''/different/path/file.txt'']"
    by code_simp
  have u2: "list_ex (\<lambda>p. list_ex (\<lambda>q. under_prefix (Path q) p) (str_split (CHR '','') ''/path/to/dir''))
       [Path ''/path/to/dir/file.txt'']"
    by code_simp
  have c: "is_conventional ''bad commit message'' [''feat'', ''fix''] True = Inr False"
    by code_simp
  have j: "join '', '' (conventional_types [''feat'', ''fix'']) = ''feat, fix''"
    by code_simp
  from limit_to_filter [OF a g1] u1 have "main (Some (test_args [''/path/to/dir'']))
       (Text ''bad commit message'') (Completed (''/different/path/file.txt'' @ [NL])) =
     (Inr 0, [GitDiffCached])"
    by simp
  moreover from limit_to_filter [OF a g2] u2 c j have "main (Some (test_args [''/path/to/dir'']))
       (Text ''bad commit message'') (Completed (''/path/to/dir/file.txt'' @ [NL])) =
     (Inr 1, [GitDiffCached, BadCommitNotice ''bad commit message'' ''feat, fix''])"
    by (simp add: test_args_def)
  moreover from limit_to_filter [OF a' g1] u1
  have "main (Some ((test_args [''/path/to/dir''])\<lparr>arg_types := [''('']\<rparr>))
       (Text ''bad commit message'') (Completed (''/different/path/file.txt'' @ [NL])) =
     (Inr 0, [GitDiffCached])"
    by simp
  ultimately show ?thesis using e by blast
qed

text \<open>
  C9. Only the first \<open>--limit-to\<close> token counts: \<open>main\<close> does the same with the tokens
  after the first removed. With the tokens "/path/to/dir" and "/different/path", a commit
  that touches only "/different/path/file.txt" is out of the filter and a bad message
  exits 0; with the single token "/path/to/dir,/different/path" it is checked and
  exits 1.
\<close>

theorem limit_to_first_token_only:
  "main (Some (a\<lparr>arg_limit_to := Some (first # others)\<rparr>)) contents git =
     main (Some (a\<lparr>arg_limit_to := Some [first]\<rparr>)) contents git
   \<and> main (Some (test_args [''/path/to/dir'', ''/different/path'']))
       (Text ''bad commit message'') (Completed (''/different/path/file.txt'' @ [NL])) =
     (Inr 0, [GitDiffCached])
   \<and> main (Some (test_args [''/path/to/dir,/different/path'']))
       (Text ''bad commit message'') (Completed (''/different/path/file.txt'' @ [NL])) =
     (Inr 1, [GitDiffCached, BadCommitNotice ''bad commit message'' ''feat, fix''])"
proof -
  have "main (Some (a\<lparr>arg_limit_to := Some (first # others)\<rparr>)) contents git =
     main (Some (a\<lparr>arg_limit_to := Some [first]\<rparr>)) contents git"
    by (cases contents)
      (simp_all add: main_def validate_def split: prod.splits sum.splits)
  moreover have "main (Some (test_args [''/path/to/dir'', ''/different/path'']))
       (Text ''bad commit message'') (Completed (''/different/path/file.txt'' @ [NL])) =
     (Inr 0, [GitDiffCached])"
    by code_simp
  moreover have "main (Some (test_args [''/path/to/dir,/different/path'']))
       (Text ''bad commit message'') (Completed (''/different/path/file.txt'' @ [NL])) =
     (Inr 1, [GitDiffCached, BadCommitNotice ''bad commit message'' ''feat, fix''])"
    by code_simp
  ultimately show ?thesis by blast
qed

end
